theory Spec2Isabelle
  imports Complex_Main
begin

section \<open>Field placement model (client)\<close>

text \<open>
  The client keeps a list of placed fields (\<open>FieldData\<close> in
  \<open>client/src/components/PDFViewer.tsx\<close>). JavaScript numbers are modelled as
  real numbers: positions and sizes are percentages of the page, and the clamps below are
  \<open>Math.max\<close> and \<open>Math.min\<close>. The record fields carry the prefix \<open>fd_\<close>
  because \<open>id\<close>, \<open>x\<close> and \<open>y\<close> are taken in HOL.
\<close>

datatype FieldType = Text | Signature | Date | Image | Radio

record FieldData =
  fd_id :: string
  fd_type :: FieldType
  fd_x :: real
  fd_y :: real
  fd_width :: real
  fd_height :: real
  fd_page :: int

text \<open>
  A rectangle of the drag-and-drop library, and the droppable a drag ended over. Every
  droppable is a page with the id \<open>page-N\<close>; \<open>over_page\<close> is the number the handler
  reads back from that id with \<open>parseInt(pageId.split('-')[1])\<close>.
\<close>

record Rect =
  rect_left :: real
  rect_top :: real
  rect_width :: real
  rect_height :: real

record Over =
  over_page :: int
  over_rect :: Rect

record DragEndEvent =
  active_id :: string
  active_isTool :: bool
  active_isPlaced :: bool
  active_type :: FieldType
  active_rect :: "Rect option"
  over :: "Over option"

text \<open>
  The pointer position relative to the page, in percent (\<open>handleDragEnd\<close>, lines
  305-309). A rendered page has a positive width and height; for a rectangle of size zero
  JavaScript would give \<open>Infinity\<close> or \<open>NaN\<close>, which the reals do not have.
\<close>

definition percentX :: "Rect \<Rightarrow> Rect \<Rightarrow> real" where
  "percentX activeRect overRect =
     (let relativeX = rect_left activeRect - rect_left overRect
      in (relativeX / rect_width overRect) * 100)"

definition percentY :: "Rect \<Rightarrow> Rect \<Rightarrow> real" where
  "percentY activeRect overRect =
     (let relativeY = rect_top activeRect - rect_top overRect
      in (relativeY / rect_height overRect) * 100)"

text \<open>
  The tool branch of \<open>handleDragEnd\<close> (lines 311-328). The id of the new field is
  built from the clock and a random number in the source; it is an argument here.
\<close>

definition placeField ::
  "string \<Rightarrow> FieldType \<Rightarrow> int \<Rightarrow> real \<Rightarrow> real \<Rightarrow> FieldData list \<Rightarrow> FieldData list" where
  "placeField newId ty pg pX pY prev =
     (let defaultWidth = 20;
          defaultHeight = 5;
          constrainedX = max 0 (min (100 - defaultWidth) pX);
          constrainedY = max 0 (min (100 - defaultHeight) pY);
          newField = \<lparr>fd_id = newId, fd_type = ty, fd_x = constrainedX, fd_y = constrainedY,
                      fd_width = defaultWidth, fd_height = defaultHeight, fd_page = pg\<rparr>
      in prev @ [newField])"

text \<open>The placed-field branch of \<open>handleDragEnd\<close> (lines 329-345).\<close>

definition moveField ::
  "string \<Rightarrow> int \<Rightarrow> real \<Rightarrow> real \<Rightarrow> FieldData list \<Rightarrow> FieldData list" where
  "moveField i pg pX pY prev =
     map (\<lambda>f. if fd_id f = i
               then (let constrainedX = max 0 (min (100 - fd_width f) pX);
                         constrainedY = max 0 (min (100 - fd_height f) pY)
                     in f\<lparr>fd_x := constrainedX, fd_y := constrainedY, fd_page := pg\<rparr>)
               else f) prev"

definition handleDragEnd :: "DragEndEvent \<Rightarrow> string \<Rightarrow> FieldData list \<Rightarrow> FieldData list" where
  "handleDragEnd event newId prev =
     (case over event of
        None \<Rightarrow> prev
      | Some ov \<Rightarrow>
          (case active_rect event of
             None \<Rightarrow> prev
           | Some activeRect \<Rightarrow>
               (let pX = percentX activeRect (over_rect ov);
                    pY = percentY activeRect (over_rect ov)
                in if active_isTool event
                   then placeField newId (active_type event) (over_page ov) pX pY prev
                   else if active_isPlaced event
                   then moveField (active_id event) (over_page ov) pX pY prev
                   else prev)))"

definition handleResize :: "string \<Rightarrow> real \<Rightarrow> real \<Rightarrow> FieldData list \<Rightarrow> FieldData list" where
  "handleResize i w h prev =
     map (\<lambda>f. if fd_id f = i then f\<lparr>fd_width := w, fd_height := h\<rparr> else f) prev"

definition handleDeleteField :: "string \<Rightarrow> FieldData list \<Rightarrow> FieldData list" where
  "handleDeleteField i prev = filter (\<lambda>f. fd_id f \<noteq> i) prev"

text \<open>
  The resize handle of a placed field (\<open>onResizePointerDown\<close> in the placed-field
  component, lines 86-104). \<open>props\<close> is the field the component shows: its \<open>x\<close>, \<open>y\<close>
  and its width and height at pointer-down. The deltas are the pointer's travel in percent
  of the page container.
\<close>

definition newWidth :: "FieldData \<Rightarrow> real \<Rightarrow> real" where
  "newWidth props deltaWidthPc =
     (let startWidthPc = fd_width props;
          maxWidth = 100 - fd_x props
      in min maxWidth (max 5 (startWidthPc + deltaWidthPc)))"

definition newHeight :: "FieldData \<Rightarrow> real \<Rightarrow> real" where
  "newHeight props deltaHeightPc =
     (let startHeightPc = fd_height props;
          maxHeight = 100 - fd_y props
      in min maxHeight (max 2 (startHeightPc + deltaHeightPc)))"

definition resizeField :: "FieldData \<Rightarrow> real \<Rightarrow> real \<Rightarrow> FieldData list \<Rightarrow> FieldData list" where
  "resizeField props deltaWidthPc deltaHeightPc prev =
     handleResize (fd_id props) (newWidth props deltaWidthPc) (newHeight props deltaHeightPc) prev"

definition onPointerMove ::
  "FieldData \<Rightarrow> real \<Rightarrow> real \<Rightarrow> real \<Rightarrow> real \<Rightarrow> real \<Rightarrow> real \<Rightarrow> FieldData list \<Rightarrow> FieldData list" where
  "onPointerMove props startX startY clientX clientY parentWidth parentHeight prev =
     (let deltaX = clientX - startX;
          deltaY = clientY - startY;
          deltaWidthPc = (deltaX / parentWidth) * 100;
          deltaHeightPc = (deltaY / parentHeight) * 100
      in resizeField props deltaWidthPc deltaHeightPc prev)"

text \<open>
  The field lists the client can hold: it starts empty, and each step is a placement, a
  move, a resize through the handle of a field of the list, or a deletion. Two things are
  taken from the environment. The id of a new field (clock and random suffix) differs from
  the ids in the list: \<open>handleResize\<close> and the move address a field by its id. And a
  gesture is one step: the \<open>x\<close> and \<open>y\<close> the resize handle clamps against are those of
  the field in the list, no move coming between pointer-down and the pointer's travel.
  Since the delta is any real number, a step from the current width covers every
  pointer-move of a gesture, which all start from the width at pointer-down.
\<close>

inductive reachable :: "FieldData list \<Rightarrow> bool" where
  r_init: "reachable []"
| r_place: "reachable fs \<Longrightarrow> newId \<notin> fd_id ` set fs \<Longrightarrow> reachable (placeField newId ty pg pX pY fs)"
| r_move: "reachable fs \<Longrightarrow> reachable (moveField i pg pX pY fs)"
| r_resize: "reachable fs \<Longrightarrow> f \<in> set fs \<Longrightarrow> reachable (resizeField f dW dH fs)"
| r_delete: "reachable fs \<Longrightarrow> reachable (handleDeleteField i fs)"

definition inPage :: "FieldData \<Rightarrow> bool" where
  "inPage f \<longleftrightarrow> 0 \<le> fd_x f \<and> 0 \<le> fd_y f \<and> fd_x f + fd_width f \<le> 100 \<and> fd_y f + fd_height f \<le> 100"

definition minSize :: "FieldData \<Rightarrow> bool" where
  "minSize f \<longleftrightarrow> 5 \<le> fd_width f \<and> 2 \<le> fd_height f"


definition wellPlaced :: "FieldData list \<Rightarrow> bool" where
  "wellPlaced fs \<longleftrightarrow> distinct (map fd_id fs) \<and> (\<forall>f \<in> set fs. inPage f \<and> minSize f)"

section \<open>PDF annotation renderer (server)\<close>

text \<open>
  \<open>signPdf\<close> in \<open>server/src/controllers/pdfController.ts\<close>. The PDF library, the
  hash and the base64 codec are outside the repository: they are the fields of \<open>Env\<close>.
  A document is the list of its pages; a page is its size and the marks drawn on it so
  far, in drawing order. A library call that throws returns \<open>None\<close>. \<open>canEncode\<close>
  tells whether the page's default font has a code for every character of a text:
  \<open>page.drawText\<close> throws when it has not.
\<close>

type_synonym bytes = "nat list"

type_synonym rgb = "real \<times> real \<times> real"

record PDFImage =
  img_width :: real
  img_height :: real

text \<open>
  The drawing calls with their options in the order of the source:
  \<open>DrawImage img x y width height\<close>,
  \<open>DrawRectangle x y width height borderColor borderWidth color opacity\<close>,
  \<open>DrawText text x y size\<close>,
  \<open>DrawEllipse x y xScale yScale borderColor borderWidth color opacity\<close>.
\<close>

datatype DrawOp =
    DrawImage PDFImage real real real real
  | DrawRectangle real real real real rgb real "rgb option" "real option"
  | DrawText string real real real
  | DrawEllipse real real real real rgb real rgb real

record PDFPage =
  page_width :: real
  page_height :: real
  page_marks :: "DrawOp list"

record Field =
  f_id :: string
  f_type :: string
  f_x :: real
  f_y :: real
  f_width :: real
  f_height :: real
  f_page :: int
  f_content :: "string option"

record Env =
  embedPng :: "string \<Rightarrow> PDFImage option"
  embedJpg :: "string \<Rightarrow> PDFImage option"
  scaleToFit :: "PDFImage \<Rightarrow> real \<Rightarrow> real \<Rightarrow> real \<times> real"
  canEncode :: "string \<Rightarrow> bool"
  decode_base64 :: "string \<Rightarrow> bytes"
  fallback_pdf :: bytes
  load :: "bytes \<Rightarrow> PDFPage list option"
  save :: "PDFPage list \<Rightarrow> bytes"
  sha256_hex :: "bytes \<Rightarrow> string"
  encode_base64 :: "bytes \<Rightarrow> string"

datatype SignError = TypeError | LoadError | EncodingError

datatype Response = Success string string string | Status500 SignError

record SignRequest =
  req_pdfBase64 :: "string option"
  req_fields :: "Field list option"

definition startsWith :: "string \<Rightarrow> string \<Rightarrow> bool" where
  "startsWith s p \<longleftrightarrow> take (length p) s = p"


definition draw :: "DrawOp \<Rightarrow> PDFPage \<Rightarrow> PDFPage" where
  "draw mark pg = pg\<lparr>page_marks := page_marks pg @ [mark]\<rparr>"

text \<open>Lines 83-92: the embed step; an exception of the library is caught and leaves no image.\<close>

definition embedImage :: "Env \<Rightarrow> string \<Rightarrow> PDFImage option" where
  "embedImage env c =
     (if startsWith c ''data:image/png'' then embedPng env c
      else if startsWith c ''data:image/jpeg'' \<or> startsWith c ''data:image/jpg'' then embedJpg env c
      else None)"

text \<open>
  Lines 80-150: the mark of one field, given its box in points. The embed step has its own
  \<open>try\<close>; the drawing calls have not, so the exception of \<open>page.drawText\<close> on a text
  the font cannot encode leaves the loop (the outline drawn before it is lost with the
  request).
\<close>

definition drawField ::
  "Env \<Rightarrow> Field \<Rightarrow> real \<Rightarrow> real \<Rightarrow> real \<Rightarrow> real \<Rightarrow> PDFPage \<Rightarrow> SignError + PDFPage" where
  "drawField env field px py wPoints hPoints pg =
     (if f_type field = ''signature'' \<or> f_type field = ''image'' then
        (case f_content field of
           None \<Rightarrow> Inr (draw (DrawRectangle px py wPoints hPoints (1, 0, 0) 1 None None) pg)
         | Some c \<Rightarrow>
             if c = [] then Inr (draw (DrawRectangle px py wPoints hPoints (1, 0, 0) 1 None None) pg)
             else
               (case embedImage env c of
                  None \<Rightarrow> Inr pg
                | Some img \<Rightarrow>
                    (let imgDims = scaleToFit env img wPoints hPoints;
                         xOffset = (wPoints - fst imgDims) / 2;
                         yOffset = (hPoints - snd imgDims) / 2
                     in Inr (draw (DrawImage img (px + xOffset) (py + yOffset)
                                     (fst imgDims) (snd imgDims)) pg))))
      else if f_type field = ''text'' then
        (let pg1 = draw (DrawRectangle px py wPoints hPoints (0, 0, 1) 1 None None) pg
         in case f_content field of
              None \<Rightarrow> Inr pg1
            | Some c \<Rightarrow>
                if c = [] then Inr pg1
                else (let fontSize = 12
                      in if canEncode env c
                         then Inr (draw (DrawText c (px + 5) (py + hPoints - 15) fontSize) pg1)
                         else Inl EncodingError))
      else if f_type field = ''date'' then
        Inr (draw (DrawRectangle px py wPoints hPoints (96 / 100, 62 / 100, 4 / 100) 1
                     (Some (96 / 100, 62 / 100, 4 / 100)) (Some (1 / 10))) pg)
      else if f_type field = ''radio'' then
        (let centerX = px + (wPoints / 2);
             centerY = py + (hPoints / 2);
             radius = min wPoints hPoints / 2
         in Inr (draw (DrawEllipse centerX centerY radius radius (92 / 100, 28 / 100, 6 / 10) 1
                         (92 / 100, 28 / 100, 6 / 10) (1 / 10)) pg))
      else Inr pg)"

text \<open>
  Lines 68-78: one turn of the loop. A page index at or beyond the page count skips the
  field. Below zero \<open>pages[pageIndex]\<close> is \<open>undefined\<close> and \<open>page.getSize()\<close> throws.
\<close>

definition processField :: "Env \<Rightarrow> PDFPage list \<Rightarrow> Field \<Rightarrow> SignError + PDFPage list" where
  "processField env pages field =
     (let pageIndex = f_page field - 1
      in if pageIndex \<ge> int (length pages) then Inr pages
         else if pageIndex < 0 then Inl TypeError
         else
           (let pg = pages ! nat pageIndex;
                pageWidth = page_width pg;
                pageHeight = page_height pg;
                px = (f_x field / 100) * pageWidth;
                hPoints = (f_height field / 100) * pageHeight;
                wPoints = (f_width field / 100) * pageWidth;
                py = pageHeight - ((f_y field / 100) * pageHeight) - hPoints
            in case drawField env field px py wPoints hPoints pg of
                 Inl e \<Rightarrow> Inl e
               | Inr pg' \<Rightarrow> Inr (pages[nat pageIndex := pg'])))"

fun processFields :: "Env \<Rightarrow> PDFPage list \<Rightarrow> Field list \<Rightarrow> SignError + PDFPage list" where
  "processFields env pages [] = Inr pages"
| "processFields env pages (field # rest) =
     (case processField env pages field of
        Inl e \<Rightarrow> Inl e
      | Inr pages' \<Rightarrow> processFields env pages' rest)"

text \<open>
  Lines 32-55: the bytes of the PDF, from the request when it carries a non-empty
  \<open>pdfBase64\<close>, else the sample file or blank document the server falls back to.
  Then the request handler from the destructured body on. \<open>Success url originalHash signedHash\<close>
  is the JSON answer (its \<open>debug\<close> part is left out); any exception ends in the outer
  \<open>catch\<close> and the answer with status 500.
\<close>

definition pdfBuffer :: "Env \<Rightarrow> SignRequest \<Rightarrow> bytes" where
  "pdfBuffer env body =
     (case req_pdfBase64 body of
        None \<Rightarrow> fallback_pdf env
      | Some b \<Rightarrow> if b = [] then fallback_pdf env else decode_base64 env b)"

definition signPdf :: "Env \<Rightarrow> SignRequest \<Rightarrow> Response" where
  "signPdf env body =
     (let originalHash = sha256_hex env (pdfBuffer env body)
      in case load env (pdfBuffer env body) of
           None \<Rightarrow> Status500 LoadError
         | Some pages \<Rightarrow>
             (let fieldList = (case req_fields body of Some fs \<Rightarrow> fs | None \<Rightarrow> [])
              in case processFields env pages fieldList of
                   Inl e \<Rightarrow> Status500 e
                 | Inr pages' \<Rightarrow>
                     (let signedPdfBytes = save env pages';
                          signedPdfBase64 = encode_base64 env signedPdfBytes;
                          signedHash = sha256_hex env signedPdfBytes
                      in Success (''data:application/pdf;base64,'' @ signedPdfBase64)
                           originalHash signedHash)))"

subsection \<open>Sample values\<close>

text \<open>
  A one-page document of 600 by 800 points and stand-ins for the library. The sample font
  encodes the printable ASCII characters; the WinAnsi encoding of the standard fonts has no
  code for a control character such as \<open>0x01\<close>.
\<close>

definition samplePage :: PDFPage where
  "samplePage = \<lparr>page_width = 600, page_height = 800, page_marks = []\<rparr>"

definition sampleEnv :: Env where
  "sampleEnv =
     \<lparr>embedPng = (\<lambda>c. Some \<lparr>img_width = 200, img_height = 100\<rparr>),
      embedJpg = (\<lambda>c. None),
      scaleToFit = (\<lambda>img w h.
         (let scale = min (w / img_width img) (h / img_height img)
          in (img_width img * scale, img_height img * scale))),
      canEncode = (\<lambda>t. list_all (\<lambda>c. 32 \<le> (of_char c :: nat) \<and> (of_char c :: nat) \<le> 126) t),
      decode_base64 = (\<lambda>s. map of_char s),
      fallback_pdf = [],
      load = (\<lambda>b. Some [samplePage]),
      save = (\<lambda>pages. map (\<lambda>pg. length (page_marks pg)) pages),
      sha256_hex = (\<lambda>b. if b = [] then ''e3b0'' else ''9f86''),
      encode_base64 = (\<lambda>b. if b = [] then [] else ''AA=='')\<rparr>"

definition sampleField :: "string \<Rightarrow> int \<Rightarrow> string option \<Rightarrow> Field" where
  "sampleField ty pg c =
     \<lparr>f_id = ''field-1'', f_type = ty, f_x = 10, f_y = 10, f_width = 20, f_height = 5,
      f_page = pg, f_content = c\<rparr>"

definition sampleRequest :: "Field list \<Rightarrow> SignRequest" where
  "sampleRequest fs = \<lparr>req_pdfBase64 = Some ''JVBERg=='', req_fields = Some fs\<rparr>"

definition sampleOther :: FieldData where
  "sampleOther =
     \<lparr>fd_id = ''field-b'', fd_type = Radio, fd_x = 1, fd_y = 2, fd_width = 30, fd_height = 40,
      fd_page = 1\<rparr>"

definition sampleList1 :: "FieldData list" where
  "sampleList1 = placeField ''field-a'' Text 1 150 (- 3) []"

definition sampleList2 :: "FieldData list" where
  "sampleList2 = moveField ''field-a'' 2 50 99 sampleList1"

definition sampleList3 :: "FieldData list" where
  "sampleList3 = resizeField (hd sampleList2) 100 (- 10) sampleList2"

definition sampleDrop :: DragEndEvent where
  "sampleDrop =
     \<lparr>active_id = ''tool-text'', active_isTool = True, active_isPlaced = False,
      active_type = Text,
      active_rect = Some \<lparr>rect_left = 350, rect_top = 40, rect_width = 120, rect_height = 40\<rparr>,
      over = Some \<lparr>over_page = 1,
                    over_rect = \<lparr>rect_left = 100, rect_top = 50, rect_width = 500, rect_height = 700\<rparr>\<rparr>\<rparr>"

section \<open>The placement model keeps fields inside the page\<close>

lemma placed_inPage:
  "inPage \<lparr>fd_id = i, fd_type = ty, fd_x = max 0 (min (100 - 20) pX),
           fd_y = max 0 (min (100 - 5) pY), fd_width = 20, fd_height = 5, fd_page = pg\<rparr>"
  by (simp add: inPage_def)

lemma wellPlaced_place:
  assumes "wellPlaced fs" and "newId \<notin> fd_id ` set fs"
  shows "wellPlaced (placeField newId ty pg pX pY fs)"
  using assms placed_inPage [of newId ty pX pY pg]
  by (auto simp: wellPlaced_def placeField_def Let_def minSize_def)

lemma moved_ok:
  assumes "inPage f" and "minSize f"
  shows "inPage (f\<lparr>fd_x := max 0 (min (100 - fd_width f) pX),
                   fd_y := max 0 (min (100 - fd_height f) pY), fd_page := pg\<rparr>)"
    and "minSize (f\<lparr>fd_x := max 0 (min (100 - fd_width f) pX),
                   fd_y := max 0 (min (100 - fd_height f) pY), fd_page := pg\<rparr>)"
  using assms by (auto simp: inPage_def minSize_def)

lemma moveField_ids: "map fd_id (moveField i pg pX pY fs) = map fd_id fs"
  by (induction fs) (simp_all add: moveField_def Let_def)

lemma wellPlaced_move:
  assumes "wellPlaced fs"
  shows "wellPlaced (moveField i pg pX pY fs)"
proof -
  have "\<forall>g \<in> set (moveField i pg pX pY fs). inPage g \<and> minSize g"
    using assms moved_ok unfolding wellPlaced_def moveField_def Let_def by auto
  with assms show ?thesis
    by (simp add: wellPlaced_def moveField_ids)
qed

lemma resized_ok:
  assumes "inPage f" and "minSize f"
  shows "inPage (f\<lparr>fd_width := newWidth f dW, fd_height := newHeight f dH\<rparr>)"
    and "minSize (f\<lparr>fd_width := newWidth f dW, fd_height := newHeight f dH\<rparr>)"
  using assms by (auto simp: inPage_def minSize_def newWidth_def newHeight_def Let_def)

lemma handleResize_ids: "map fd_id (handleResize i w h fs) = map fd_id fs"
  by (induction fs) (simp_all add: handleResize_def)

lemma same_id_same_field:
  assumes "distinct (map fd_id fs)" and "f \<in> set fs" and "g \<in> set fs" and "fd_id g = fd_id f"
  shows "g = f"
  using assms by (meson distinct_map inj_onD)

lemma resizeField_set:
  assumes "distinct (map fd_id fs)" and "f \<in> set fs" and "g' \<in> set (resizeField f dW dH fs)"
  shows "(fd_id g' = fd_id f \<and> g' = f\<lparr>fd_width := newWidth f dW, fd_height := newHeight f dH\<rparr>)
       \<or> (fd_id g' \<noteq> fd_id f \<and> g' \<in> set fs)"
proof -
  from assms(3) obtain g where g: "g \<in> set fs"
    and g': "g' = (if fd_id g = fd_id f
                   then g\<lparr>fd_width := newWidth f dW, fd_height := newHeight f dH\<rparr> else g)"
    by (auto simp: resizeField_def handleResize_def)
  show ?thesis
  proof (cases "fd_id g = fd_id f")
    case True
    with assms g have "g = f"
      using same_id_same_field [of fs f g] by simp
    with g' show ?thesis by simp
  next
    case False
    with g g' show ?thesis by simp
  qed
qed

lemma wellPlaced_resize:
  assumes "wellPlaced fs" and "f \<in> set fs"
  shows "wellPlaced (resizeField f dW dH fs)"
proof -
  have "inPage g' \<and> minSize g'" if "g' \<in> set (resizeField f dW dH fs)" for g'
    using resizeField_set [of fs f g' dW dH] that assms resized_ok [where f = f and dW = dW and dH = dH]
    by (auto simp: wellPlaced_def)
  with assms show ?thesis
    by (simp add: wellPlaced_def resizeField_def handleResize_ids)
qed

lemma wellPlaced_delete:
  assumes "wellPlaced fs"
  shows "wellPlaced (handleDeleteField i fs)"
  using assms by (auto simp: wellPlaced_def handleDeleteField_def distinct_map_filter)

lemma reachable_wellPlaced: "reachable fs \<Longrightarrow> wellPlaced fs"
proof (induction rule: reachable.induct)
  case r_init
  show ?case by (simp add: wellPlaced_def)
qed (simp_all add: wellPlaced_place wellPlaced_move wellPlaced_resize wellPlaced_delete)

lemma sampleList1_eq:
  "sampleList1 = [\<lparr>fd_id = ''field-a'', fd_type = Text, fd_x = 80, fd_y = 0, fd_width = 20,
                    fd_height = 5, fd_page = 1\<rparr>]"
  by (simp add: sampleList1_def placeField_def)

lemma sampleList2_eq:
  "sampleList2 = [\<lparr>fd_id = ''field-a'', fd_type = Text, fd_x = 50, fd_y = 95, fd_width = 20,
                    fd_height = 5, fd_page = 2\<rparr>]"
  by (simp add: sampleList2_def sampleList1_eq moveField_def)

lemma sampleList3_eq:
  "sampleList3 = [\<lparr>fd_id = ''field-a'', fd_type = Text, fd_x = 50, fd_y = 95, fd_width = 50,
                    fd_height = 2, fd_page = 2\<rparr>]"
  by (simp add: sampleList3_def sampleList2_eq resizeField_def handleResize_def
      newWidth_def newHeight_def)

lemma reachable_sampleList2: "reachable sampleList2"
proof -
  have "reachable sampleList1"
    unfolding sampleList1_def by (rule r_place [OF r_init]) simp
  then show ?thesis
    unfolding sampleList2_def by (rule r_move)
qed

lemma reachable_sampleList3: "reachable sampleList3"
  unfolding sampleList3_def
  by (rule r_resize [OF reachable_sampleList2]) (simp add: sampleList2_eq)

text \<open>
  Claim C2. Every field of a list the client can reach by placing, moving and resizing
  (and deleting) lies inside the page: \<open>0 \<le> x\<close>, \<open>0 \<le> y\<close>, \<open>x + width \<le> 100\<close> and
  \<open>y + height \<le> 100\<close>.
\<close>

theorem C2_fields_stay_in_page:
  assumes "reachable fs" and "f \<in> set fs"
  shows "0 \<le> fd_x f \<and> 0 \<le> fd_y f \<and> fd_x f + fd_width f \<le> 100 \<and> fd_y f + fd_height f \<le> 100"
  using reachable_wellPlaced [OF assms(1)] assms(2) by (simp add: wellPlaced_def inPage_def)

theorem C2_fields_stay_in_page_witness:
  "reachable sampleList3 \<and> hd sampleList3 \<in> set sampleList3 \<and> fd_x (hd sampleList3) = 50
   \<and> fd_width (hd sampleList3) = 50 \<and> fd_y (hd sampleList3) = 95 \<and> fd_height (hd sampleList3) = 2
   \<and> 0 \<le> fd_x (hd sampleList3) \<and> 0 \<le> fd_y (hd sampleList3)
   \<and> fd_x (hd sampleList3) + fd_width (hd sampleList3) \<le> 100
   \<and> fd_y (hd sampleList3) + fd_height (hd sampleList3) \<le> 100"
proof -
  have m: "hd sampleList3 \<in> set sampleList3" by (simp add: sampleList3_eq)
  show ?thesis
    using C2_fields_stay_in_page [OF reachable_sampleList3 m] reachable_sampleList3 m
    by (simp add: sampleList3_eq)
qed

text \<open>
  Claim C3. Dropping a tool on a page places a field at the drop position in percent, and
  for every tool type and every position the placed field is 20 wide and 5 high, sits at
  \<open>x = max 0 (min (100 - 20) percentX)\<close> and \<open>y = max 0 (min (100 - 5) percentY)\<close>, and
  is appended to the list.
\<close>

theorem C3_place_default_box:
  assumes "over event = Some ov" and "active_rect event = Some activeRect"
    and "active_isTool event"
  shows "handleDragEnd event newId prev =
           placeField newId (active_type event) (over_page ov)
             (percentX activeRect (over_rect ov)) (percentY activeRect (over_rect ov)) prev
       \<and> placeField newId ty pg pX pY prev =
           prev @ [\<lparr>fd_id = newId, fd_type = ty, fd_x = max 0 (min (100 - 20) pX),
                    fd_y = max 0 (min (100 - 5) pY), fd_width = 20, fd_height = 5, fd_page = pg\<rparr>]"
  using assms by (simp add: handleDragEnd_def placeField_def Let_def)

theorem C3_place_default_box_witness:
  "over sampleDrop \<noteq> None \<and> active_rect sampleDrop \<noteq> None \<and> active_isTool sampleDrop
   \<and> handleDragEnd sampleDrop ''field-c'' [sampleOther] =
       [sampleOther, \<lparr>fd_id = ''field-c'', fd_type = Text, fd_x = 50, fd_y = 0, fd_width = 20,
                       fd_height = 5, fd_page = 1\<rparr>]"
proof -
  let ?ov = "\<lparr>over_page = 1,
              over_rect = \<lparr>rect_left = 100, rect_top = 50, rect_width = 500, rect_height = 700\<rparr>\<rparr>"
  let ?ar = "\<lparr>rect_left = 350, rect_top = 40, rect_width = 120, rect_height = 40\<rparr>"
  have o: "over sampleDrop = Some ?ov" and a: "active_rect sampleDrop = Some ?ar"
    and t: "active_isTool sampleDrop"
    by (simp_all add: sampleDrop_def)
  show ?thesis
    using C3_place_default_box [OF o a t, where newId = "''field-c''" and prev = "[sampleOther]"
        and ty = Text and pg = 1 and pX = "percentX ?ar (over_rect ?ov)"
        and pY = "percentY ?ar (over_rect ?ov)"] o a t
    by (simp add: sampleDrop_def percentX_def percentY_def)
qed

text \<open>
  Claim C4. Resizing a field of a reachable list by any delta leaves its \<open>x\<close> and \<open>y\<close>
  as they are, keeps its right and bottom edges inside the page, and gives it a width of at
  least 5 and a height of at least 2.
\<close>

theorem C4_resize_keeps_corner_and_minimum:
  assumes "reachable fs" and "f \<in> set fs"
  shows "f\<lparr>fd_width := newWidth f dW, fd_height := newHeight f dH\<rparr> \<in> set (resizeField f dW dH fs)
       \<and> (\<forall>g \<in> set (resizeField f dW dH fs). fd_id g = fd_id f \<longrightarrow>
            fd_x g = fd_x f \<and> fd_y g = fd_y f
            \<and> fd_width g = newWidth f dW \<and> fd_height g = newHeight f dH
            \<and> fd_x g + fd_width g \<le> 100 \<and> fd_y g + fd_height g \<le> 100
            \<and> 5 \<le> fd_width g \<and> 2 \<le> fd_height g)"
proof -
  from assms have wp: "wellPlaced fs" by (simp add: reachable_wellPlaced)
  with assms(2) have f: "inPage f" "minSize f" by (simp_all add: wellPlaced_def)
  have mem: "f\<lparr>fd_width := newWidth f dW, fd_height := newHeight f dH\<rparr> \<in> set (resizeField f dW dH fs)"
    using assms(2) by (force simp: resizeField_def handleResize_def)
  have "fd_x g = fd_x f \<and> fd_y g = fd_y f
        \<and> fd_width g = newWidth f dW \<and> fd_height g = newHeight f dH
        \<and> fd_x g + fd_width g \<le> 100 \<and> fd_y g + fd_height g \<le> 100
        \<and> 5 \<le> fd_width g \<and> 2 \<le> fd_height g"
    if "g \<in> set (resizeField f dW dH fs)" and "fd_id g = fd_id f" for g
  proof -
    from wp have "distinct (map fd_id fs)" by (simp add: wellPlaced_def)
    from resizeField_set [OF this assms(2) that(1)] that(2)
    have g: "g = f\<lparr>fd_width := newWidth f dW, fd_height := newHeight f dH\<rparr>" by simp
    from resized_ok [OF f, where dW = dW and dH = dH] show ?thesis
      by (simp add: g inPage_def minSize_def)
  qed
  with mem show ?thesis by blast
qed

theorem C4_resize_keeps_corner_and_minimum_witness:
  "reachable sampleList2 \<and> hd sampleList2 \<in> set sampleList2
   \<and> fd_x (hd sampleList2) = 50 \<and> fd_y (hd sampleList2) = 95
   \<and> resizeField (hd sampleList2) 100 (- 10) sampleList2 =
       [\<lparr>fd_id = ''field-a'', fd_type = Text, fd_x = 50, fd_y = 95, fd_width = 50,
         fd_height = 2, fd_page = 2\<rparr>]
   \<and> resizeField (hd sampleList2) (- 100) 1 sampleList2 =
       [\<lparr>fd_id = ''field-a'', fd_type = Text, fd_x = 50, fd_y = 95, fd_width = 5,
         fd_height = 5, fd_page = 2\<rparr>]"
proof -
  have m: "hd sampleList2 \<in> set sampleList2" by (simp add: sampleList2_eq)
  show ?thesis
    using C4_resize_keeps_corner_and_minimum [OF reachable_sampleList2 m, where dW = 100 and dH = "- 10"]
      C4_resize_keeps_corner_and_minimum [OF reachable_sampleList2 m, where dW = "- 100" and dH = 1]
      reachable_sampleList2 m
    by (simp add: sampleList2_eq resizeField_def handleResize_def newWidth_def newHeight_def)
qed

lemma handleDragEnd_placed:
  assumes "over event = Some ov" and "active_rect event = Some activeRect"
    and "\<not> active_isTool event" and "active_isPlaced event"
  shows "handleDragEnd event newId prev =
           moveField (active_id event) (over_page ov)
             (percentX activeRect (over_rect ov)) (percentY activeRect (over_rect ov)) prev"
  using assms by (simp add: handleDragEnd_def Let_def)

text \<open>
  Claim C10. A move keeps the id, type, width and height of the fields with the given id, a
  resize keeps their id, type, x, y and page, and both leave every other field, the length
  of the list and its order alone.
\<close>

theorem C10_move_resize_frame:
  "length (moveField i pg pX pY fs) = length fs
   \<and> length (handleResize i w h fs) = length fs
   \<and> (\<forall>k < length fs.
        (fd_id (fs ! k) = i \<longrightarrow>
           fd_id (moveField i pg pX pY fs ! k) = fd_id (fs ! k)
           \<and> fd_type (moveField i pg pX pY fs ! k) = fd_type (fs ! k)
           \<and> fd_width (moveField i pg pX pY fs ! k) = fd_width (fs ! k)
           \<and> fd_height (moveField i pg pX pY fs ! k) = fd_height (fs ! k)
           \<and> fd_id (handleResize i w h fs ! k) = fd_id (fs ! k)
           \<and> fd_type (handleResize i w h fs ! k) = fd_type (fs ! k)
           \<and> fd_x (handleResize i w h fs ! k) = fd_x (fs ! k)
           \<and> fd_y (handleResize i w h fs ! k) = fd_y (fs ! k)
           \<and> fd_page (handleResize i w h fs ! k) = fd_page (fs ! k))
        \<and> (fd_id (fs ! k) \<noteq> i \<longrightarrow>
           moveField i pg pX pY fs ! k = fs ! k \<and> handleResize i w h fs ! k = fs ! k))"
  by (simp add: moveField_def handleResize_def Let_def)

theorem C10_move_resize_frame_witness:
  "moveField ''field-a'' 3 10 20 (sampleList2 @ [sampleOther]) =
     [\<lparr>fd_id = ''field-a'', fd_type = Text, fd_x = 10, fd_y = 20, fd_width = 20,
       fd_height = 5, fd_page = 3\<rparr>, sampleOther]
   \<and> handleResize ''field-a'' 30 40 (sampleList2 @ [sampleOther]) =
     [\<lparr>fd_id = ''field-a'', fd_type = Text, fd_x = 50, fd_y = 95, fd_width = 30,
       fd_height = 40, fd_page = 2\<rparr>, sampleOther]
   \<and> fd_id ((sampleList2 @ [sampleOther]) ! 0) = ''field-a''
   \<and> fd_id ((sampleList2 @ [sampleOther]) ! 1) \<noteq> ''field-a''
   \<and> moveField ''field-a'' 3 10 20 (sampleList2 @ [sampleOther]) ! 1 = (sampleList2 @ [sampleOther]) ! 1
   \<and> handleResize ''field-a'' 30 40 (sampleList2 @ [sampleOther]) ! 1 = (sampleList2 @ [sampleOther]) ! 1"
  using C10_move_resize_frame [where i = "''field-a''" and pg = 3 and pX = 10 and pY = 20
      and fs = "sampleList2 @ [sampleOther]" and w = 30 and h = 40]
  by (simp add: sampleList2_eq moveField_def handleResize_def sampleOther_def)

section \<open>The annotation renderer\<close>



lemma processField_length:
  assumes "processField env pages f = Inr pages'"
  shows "length pages' = length pages"
  using assms by (auto simp: processField_def Let_def split: if_splits sum.splits)

lemma drawField_error:
  assumes "drawField env f px py w h pg = Inl e"
  shows "e = EncodingError \<and> f_type f = ''text''
         \<and> (\<exists>c. f_content f = Some c \<and> c \<noteq> [] \<and> \<not> canEncode env c)"
  using assms by (auto simp: drawField_def Let_def split: if_splits option.splits)

lemma processField_error:
  assumes "processField env pages f = Inl e"
  shows "e = TypeError
         \<or> (e = EncodingError \<and> f_type f = ''text''
              \<and> (\<exists>c. f_content f = Some c \<and> c \<noteq> [] \<and> \<not> canEncode env c))"
  using assms drawField_error [of env f]
  by (auto simp: processField_def Let_def split: if_splits sum.splits)

lemma processField_below:
  assumes "f_page f \<le> 0"
  shows "processField env pages f = Inl TypeError"
  using assms by (simp add: processField_def Let_def)

lemma processField_beyond:
  assumes "int (length pages) < f_page f"
  shows "processField env pages f = Inr pages"
  using assms by (simp add: processField_def Let_def)

lemma processField_on_page:
  assumes "1 \<le> f_page f" and "f_page f \<le> int (length pages)"
  shows "processField env pages f =
           (case drawField env f
                   ((f_x f / 100) * page_width (pages ! nat (f_page f - 1)))
                   (page_height (pages ! nat (f_page f - 1))
                      - ((f_y f / 100) * page_height (pages ! nat (f_page f - 1)))
                      - (f_height f / 100) * page_height (pages ! nat (f_page f - 1)))
                   ((f_width f / 100) * page_width (pages ! nat (f_page f - 1)))
                   ((f_height f / 100) * page_height (pages ! nat (f_page f - 1)))
                   (pages ! nat (f_page f - 1)) of
              Inl e \<Rightarrow> Inl e
            | Inr pg' \<Rightarrow> Inr (pages[nat (f_page f - 1) := pg']))"
  using assms by (simp add: processField_def Let_def)

lemma processFields_skip:
  assumes "\<And>p. length p = length pages \<Longrightarrow> processField env p f = Inr p"
  shows "processFields env pages (before @ f # rest) = processFields env pages (before @ rest)"
  using assms
proof (induction before arbitrary: pages)
  case Nil
  then show ?case by simp
next
  case (Cons b before)
  show ?case
  proof (cases "processField env pages b")
    case (Inl e)
    then show ?thesis by simp
  next
    case (Inr pages')
    then have "length pages' = length pages" by (rule processField_length)
    with Cons.prems have "\<And>p. length p = length pages' \<Longrightarrow> processField env p f = Inr p"
      by simp
    then have "processFields env pages' (before @ f # rest) = processFields env pages' (before @ rest)"
      by (rule Cons.IH)
    with Inr show ?thesis by simp
  qed
qed

lemma processFields_below:
  assumes "f \<in> set fs" and "f_page f \<le> 0"
  shows "processFields env pages fs = Inl TypeError \<or> processFields env pages fs = Inl EncodingError"
  using assms
proof (induction fs arbitrary: pages)
  case Nil
  then show ?case by simp
next
  case (Cons g fs)
  show ?case
  proof (cases "processField env pages g")
    case (Inl e)
    with processField_error [OF Inl] show ?thesis by auto
  next
    case (Inr pages')
    with Cons.prems have "f \<in> set fs"
      by (auto simp: processField_below)
    with Cons.IH [of pages'] Cons.prems(2) Inr show ?thesis by simp
  qed
qed

lemma processFields_below_encodable:
  assumes "f \<in> set fs" and "f_page f \<le> 0"
    and "\<forall>g \<in> set fs. \<forall>c. f_type g = ''text'' \<and> f_content g = Some c \<longrightarrow> canEncode env c"
  shows "processFields env pages fs = Inl TypeError"
  using assms
proof (induction fs arbitrary: pages)
  case Nil
  then show ?case by simp
next
  case (Cons g fs)
  show ?case
  proof (cases "processField env pages g")
    case (Inl e)
    with processField_error [OF Inl] Cons.prems(3) show ?thesis by auto
  next
    case (Inr pages')
    with Cons.prems have "f \<in> set fs"
      by (auto simp: processField_below)
    with Cons.IH [of pages'] Cons.prems(2,3) Inr show ?thesis by simp
  qed
qed

lemma drawField_unsupported:
  assumes "f_type f = ''signature'' \<or> f_type f = ''image''"
    and "f_content f = Some c" and "c \<noteq> []"
    and "\<not> startsWith c ''data:image/png''"
    and "\<not> startsWith c ''data:image/jpeg''"
    and "\<not> startsWith c ''data:image/jpg''"
  shows "drawField env f px py w h pg = Inr pg"
  using assms by (auto simp: drawField_def embedImage_def)

lemma processField_unsupported:
  assumes "f_type f = ''signature'' \<or> f_type f = ''image''"
    and "f_content f = Some c" and "c \<noteq> []"
    and "\<not> startsWith c ''data:image/png''"
    and "\<not> startsWith c ''data:image/jpeg''"
    and "\<not> startsWith c ''data:image/jpg''"
    and "1 \<le> f_page f"
  shows "processField env pages f = Inr pages"
proof (cases "f_page f \<le> int (length pages)")
  case True
  with assms(7) show ?thesis
    by (simp add: processField_on_page drawField_unsupported [OF assms(1-6)])
next
  case False
  then show ?thesis by (simp add: processField_beyond)
qed

lemma signPdf_same_marks:
  assumes "\<And>pages. processFields env pages fs = processFields env pages fs'"
  shows "signPdf env (body\<lparr>req_fields := Some fs\<rparr>) = signPdf env (body\<lparr>req_fields := Some fs'\<rparr>)"
  using assms by (simp add: signPdf_def pdfBuffer_def Let_def split: option.splits)


text \<open>
  Claim C1. For a field whose page exists, the renderer draws with
  \<open>xPoints = (x/100) * pageWidth\<close>, \<open>widthPoints = (width/100) * pageWidth\<close>,
  \<open>heightPoints = (height/100) * pageHeight\<close> and
  \<open>yPoints = pageHeight - (y/100) * pageHeight - heightPoints\<close>; a field at
  \<open>x = 10, y = 10, width = 20, height = 5\<close> on a 600 by 800 page is drawn at \<open>(60, 680)\<close>.
\<close>

theorem C1_percent_to_points:
  assumes "1 \<le> f_page f" and "f_page f \<le> int (length pages)"
  shows "(let pg = pages ! nat (f_page f - 1);
              pageWidth = page_width pg;
              pageHeight = page_height pg;
              xPoints = (f_x f / 100) * pageWidth;
              widthPoints = (f_width f / 100) * pageWidth;
              heightPoints = (f_height f / 100) * pageHeight;
              yPoints = pageHeight - (f_y f / 100) * pageHeight - heightPoints
          in processField env pages f =
               (case drawField env f xPoints yPoints widthPoints heightPoints pg of
                  Inl e \<Rightarrow> Inl e
                | Inr pg' \<Rightarrow> Inr (pages[nat (f_page f - 1) := pg']))
             \<and> (f_x f = 10 \<and> f_y f = 10 \<and> f_width f = 20 \<and> f_height f = 5
                  \<and> pageWidth = 600 \<and> pageHeight = 800
                \<longrightarrow> xPoints = 60 \<and> yPoints = 680))"
  using processField_on_page [OF assms, of env] by (simp add: Let_def)

theorem C1_percent_to_points_witness:
  "1 \<le> f_page (sampleField ''date'' 1 None)
   \<and> f_page (sampleField ''date'' 1 None) \<le> int (length [samplePage])
   \<and> processField sampleEnv [samplePage] (sampleField ''date'' 1 None) =
       Inr [samplePage\<lparr>page_marks :=
              [DrawRectangle 60 680 120 40 (96 / 100, 62 / 100, 4 / 100) 1
                 (Some (96 / 100, 62 / 100, 4 / 100)) (Some (1 / 10))]\<rparr>]"
proof -
  have a: "1 \<le> f_page (sampleField ''date'' 1 None)"
    and b: "f_page (sampleField ''date'' 1 None) \<le> int (length [samplePage])"
    by (simp_all add: sampleField_def)
  show ?thesis
    using C1_percent_to_points [OF a b, of sampleEnv] a b
    by (simp add: Let_def sampleField_def samplePage_def drawField_def draw_def)
qed

text \<open>
  Claim C5. A field whose page number is beyond the page count raises nothing and draws
  nothing, the fields before and after it are processed as if it were not in the list, and
  a request whose only field is such a field (page 99 of a one-page document, say) succeeds
  with the document unmarked.
\<close>

theorem C5_page_beyond_count_skipped:
  assumes "int (length pages) < f_page f"
  shows "processField env pages f = Inr pages
       \<and> processFields env pages (before @ f # rest) = processFields env pages (before @ rest)
       \<and> (load env (pdfBuffer env body) = Some pages \<longrightarrow>
            signPdf env (body\<lparr>req_fields := Some (before @ f # rest)\<rparr>)
              = signPdf env (body\<lparr>req_fields := Some (before @ rest)\<rparr>)
            \<and> signPdf env (body\<lparr>req_fields := Some [f]\<rparr>)
              = Success (''data:application/pdf;base64,'' @ encode_base64 env (save env pages))
                  (sha256_hex env (pdfBuffer env body)) (sha256_hex env (save env pages)))"
proof -
  have one: "processField env pages f = Inr pages"
    using assms by (rule processField_beyond)
  have skip: "processFields env pages (before @ f # rest) = processFields env pages (before @ rest)"
    using assms by (intro processFields_skip) (simp add: processField_beyond)
  have "signPdf env (body\<lparr>req_fields := Some (before @ f # rest)\<rparr>)
          = signPdf env (body\<lparr>req_fields := Some (before @ rest)\<rparr>)"
    if "load env (pdfBuffer env body) = Some pages"
    using that skip by (simp add: signPdf_def pdfBuffer_def Let_def)
  moreover have "signPdf env (body\<lparr>req_fields := Some [f]\<rparr>)
          = Success (''data:application/pdf;base64,'' @ encode_base64 env (save env pages))
              (sha256_hex env (pdfBuffer env body)) (sha256_hex env (save env pages))"
    if "load env (pdfBuffer env body) = Some pages"
    using that one by (simp add: signPdf_def pdfBuffer_def Let_def)
  ultimately show ?thesis using one skip by blast
qed

theorem C5_page_beyond_count_skipped_witness:
  "int (length [samplePage]) < f_page (sampleField ''text'' 99 (Some ''hello''))
   \<and> load sampleEnv (pdfBuffer sampleEnv (sampleRequest [])) = Some [samplePage]
   \<and> processField sampleEnv [samplePage] (sampleField ''text'' 99 (Some ''hello'')) = Inr [samplePage]
   \<and> signPdf sampleEnv (sampleRequest [sampleField ''text'' 99 (Some ''hello'')])
       = Success ''data:application/pdf;base64,AA=='' ''9f86'' ''9f86''
   \<and> signPdf sampleEnv (sampleRequest [sampleField ''date'' 1 None,
         sampleField ''text'' 99 (Some ''hello''), sampleField ''radio'' 1 None])
       = signPdf sampleEnv (sampleRequest [sampleField ''date'' 1 None, sampleField ''radio'' 1 None])"
proof -
  have a: "int (length [samplePage]) < f_page (sampleField ''text'' 99 (Some ''hello''))"
    by (simp add: sampleField_def)
  have b: "load sampleEnv (pdfBuffer sampleEnv (sampleRequest [])) = Some [samplePage]"
    by (simp add: sampleEnv_def)
  have c: "sampleRequest fs = (sampleRequest [])\<lparr>req_fields := Some fs\<rparr>" for fs
    by (simp add: sampleRequest_def)
  show ?thesis
    using C5_page_beyond_count_skipped [OF a, where env = sampleEnv and body = "sampleRequest []"
        and before = "[sampleField ''date'' 1 None]" and rest = "[sampleField ''radio'' 1 None]"] a b
    by (simp add: c [symmetric]) (simp add: sampleEnv_def sampleRequest_def pdfBuffer_def)
qed

text \<open>
  Claim C6. A signature or image field on a page number of at least 1, whose content is
  present (a non-empty string, the test \<open>if (field.content)\<close>) and starts with none of
  \<open>data:image/png\<close>, \<open>data:image/jpeg\<close> and \<open>data:image/jpg\<close>, gets no mark, neither
  an image nor the placeholder rectangle; it raises nothing, and the request answers as it
  does without the field.
\<close>

theorem C6_unsupported_image_draws_nothing:
  assumes "f_type f = ''signature'' \<or> f_type f = ''image''"
    and "f_content f = Some c" and "c \<noteq> []"
    and "\<not> startsWith c ''data:image/png''"
    and "\<not> startsWith c ''data:image/jpeg''"
    and "\<not> startsWith c ''data:image/jpg''"
    and "1 \<le> f_page f"
  shows "processField env pages f = Inr pages
       \<and> processFields env pages (before @ f # rest) = processFields env pages (before @ rest)
       \<and> signPdf env (body\<lparr>req_fields := Some (before @ f # rest)\<rparr>)
           = signPdf env (body\<lparr>req_fields := Some (before @ rest)\<rparr>)"
proof -
  have one: "processField env p f = Inr p" for p
    using assms by (rule processField_unsupported)
  have skip: "processFields env p (before @ f # rest) = processFields env p (before @ rest)" for p
    by (intro processFields_skip) (simp add: one)
  from one skip signPdf_same_marks [of env "before @ f # rest" "before @ rest" body]
  show ?thesis by simp
qed

theorem C6_unsupported_image_draws_nothing_witness:
  "f_type (sampleField ''signature'' 1 (Some ''data:image/gif;base64,R0lGOD'')) = ''signature''
   \<and> f_content (sampleField ''signature'' 1 (Some ''data:image/gif;base64,R0lGOD''))
       = Some ''data:image/gif;base64,R0lGOD''
   \<and> \<not> startsWith ''data:image/gif;base64,R0lGOD'' ''data:image/png''
   \<and> \<not> startsWith ''data:image/gif;base64,R0lGOD'' ''data:image/jpeg''
   \<and> \<not> startsWith ''data:image/gif;base64,R0lGOD'' ''data:image/jpg''
   \<and> processField sampleEnv [samplePage]
        (sampleField ''signature'' 1 (Some ''data:image/gif;base64,R0lGOD'')) = Inr [samplePage]
   \<and> signPdf sampleEnv (sampleRequest
        [sampleField ''signature'' 1 (Some ''data:image/gif;base64,R0lGOD''),
         sampleField ''date'' 1 None])
       = Success ''data:application/pdf;base64,AA=='' ''9f86'' ''9f86''"
proof -
  let ?f = "sampleField ''signature'' 1 (Some ''data:image/gif;base64,R0lGOD'')"
  have t: "f_type ?f = ''signature'' \<or> f_type ?f = ''image''"
    and c: "f_content ?f = Some ''data:image/gif;base64,R0lGOD''"
    and n: "''data:image/gif;base64,R0lGOD'' \<noteq> []"
    and p: "\<not> startsWith ''data:image/gif;base64,R0lGOD'' ''data:image/png''"
    and j: "\<not> startsWith ''data:image/gif;base64,R0lGOD'' ''data:image/jpeg''"
    and g: "\<not> startsWith ''data:image/gif;base64,R0lGOD'' ''data:image/jpg''"
    and pg: "1 \<le> f_page ?f"
    by (simp_all add: sampleField_def startsWith_def)
  have r: "sampleRequest fs = (sampleRequest [])\<lparr>req_fields := Some fs\<rparr>" for fs
    by (simp add: sampleRequest_def)
  have d: "signPdf sampleEnv (sampleRequest [sampleField ''date'' 1 None])
             = Success ''data:application/pdf;base64,AA=='' ''9f86'' ''9f86''"
    by (simp add: signPdf_def sampleEnv_def sampleRequest_def pdfBuffer_def processField_def
        sampleField_def samplePage_def drawField_def draw_def Let_def)
  show ?thesis
    using C6_unsupported_image_draws_nothing [OF t c n p j g pg, where env = sampleEnv
        and pages = "[samplePage]" and before = "[]" and rest = "[sampleField ''date'' 1 None]"
        and body = "sampleRequest []"] c p j g d
    by (simp add: r [symmetric]) (simp add: sampleField_def)
qed




text \<open>
  Claim C9. A field with a page number of 0 or less is not skipped: the guard tests the
  upper bound only, the page looked up does not exist, and the turn of the loop throws. A
  request with such a field in its list answers with status 500: with the type error of
  that field when no text before it fails to encode, and with one of the two exceptions
  of the loop in any case.
\<close>

theorem C9_page_below_one_fails:
  assumes "f \<in> set fs" and "f_page f \<le> 0" and "req_fields body = Some fs"
  shows "processField env pages f = Inl TypeError
       \<and> (processFields env pages fs = Inl TypeError
            \<or> processFields env pages fs = Inl EncodingError)
       \<and> (\<exists>e. signPdf env body = Status500 e)
       \<and> ((\<forall>g \<in> set fs. \<forall>c. f_type g = ''text'' \<and> f_content g = Some c \<longrightarrow> canEncode env c)
            \<longrightarrow> processFields env pages fs = Inl TypeError
              \<and> signPdf env body =
                  (case load env (pdfBuffer env body) of
                     None \<Rightarrow> Status500 LoadError
                   | Some loaded \<Rightarrow> Status500 TypeError))"
proof -
  have any: "processFields env p fs = Inl TypeError \<or> processFields env p fs = Inl EncodingError" for p
    using assms(1,2) by (rule processFields_below)
  have "\<exists>e. signPdf env body = Status500 e"
  proof (cases "load env (pdfBuffer env body)")
    case None
    then show ?thesis by (simp add: signPdf_def Let_def)
  next
    case (Some loaded)
    with any [of loaded] assms(3) show ?thesis
      by (auto simp: signPdf_def Let_def)
  qed
  moreover have "processFields env p fs = Inl TypeError"
    if "\<forall>g \<in> set fs. \<forall>c. f_type g = ''text'' \<and> f_content g = Some c \<longrightarrow> canEncode env c" for p
    using assms(1,2) that by (rule processFields_below_encodable)
  then have "signPdf env body =
                  (case load env (pdfBuffer env body) of
                     None \<Rightarrow> Status500 LoadError
                   | Some loaded \<Rightarrow> Status500 TypeError)
             \<and> processFields env pages fs = Inl TypeError"
    if "\<forall>g \<in> set fs. \<forall>c. f_type g = ''text'' \<and> f_content g = Some c \<longrightarrow> canEncode env c"
    using that assms(3) by (simp add: signPdf_def Let_def split: option.splits)
  ultimately show ?thesis
    using any [of pages] assms(2) by (simp add: processField_below)
qed

theorem C9_page_below_one_fails_witness:
  "sampleField ''date'' 0 None \<in> set [sampleField ''text'' 1 None, sampleField ''date'' 0 None]
   \<and> f_page (sampleField ''date'' 0 None) \<le> 0
   \<and> processField sampleEnv [samplePage] (sampleField ''date'' 0 None) = Inl TypeError
   \<and> signPdf sampleEnv (sampleRequest [sampleField ''text'' 1 None, sampleField ''date'' 0 None])
       = Status500 TypeError
   \<and> signPdf sampleEnv (sampleRequest [sampleField ''text'' 1 None])
       = Success ''data:application/pdf;base64,AA=='' ''9f86'' ''9f86''"
proof -
  have m: "sampleField ''date'' 0 None \<in> set [sampleField ''text'' 1 None, sampleField ''date'' 0 None]"
    and p: "f_page (sampleField ''date'' 0 None) \<le> 0"
    and r: "req_fields (sampleRequest [sampleField ''text'' 1 None, sampleField ''date'' 0 None])
              = Some [sampleField ''text'' 1 None, sampleField ''date'' 0 None]"
    by (simp_all add: sampleField_def sampleRequest_def)
  have ok: "signPdf sampleEnv (sampleRequest [sampleField ''text'' 1 None])
       = Success ''data:application/pdf;base64,AA=='' ''9f86'' ''9f86''"
    by (simp add: signPdf_def sampleEnv_def sampleRequest_def pdfBuffer_def processField_def
        sampleField_def samplePage_def drawField_def draw_def Let_def)
  have enc: "\<forall>g \<in> set [sampleField ''text'' 1 None, sampleField ''date'' 0 None].
               \<forall>c. f_type g = ''text'' \<and> f_content g = Some c \<longrightarrow> canEncode sampleEnv c"
    by (simp add: sampleField_def)
  show ?thesis
    using C9_page_below_one_fails [OF m p r, of sampleEnv "[samplePage]"] m p ok enc
    by (simp add: sampleEnv_def)
qed

end
